theory Spec2Isabelle
  imports Complex_Main "HOL-Library.Multiset"
begin

section \<open>Heimdall: session registration, invalidation and the in-memory backends\<close>

text \<open>
  A shallow embedding of the Go packages \<open>heimdall\<close> and \<open>heimdall/store\<close>.

  \<^item> \<open>time.Time\<close> is an integer count of nanoseconds, \<open>time.Duration\<close> an integer
    count of nanoseconds (an \<open>int64\<close> in Go; the one multiplication the code performs
    on durations, in \<open>ExpiresAt\<close>, wraps at 64 bits and is written out).
  \<^item> \<open>float64\<close> coordinates, distances and thresholds are real numbers: the embedding
    idealises rounding and has no NaN or infinity.
  \<^item> A call reads the clock once: the reading is the argument \<open>now\<close>.
  \<^item> An \<open>error\<close> return is a value of the type \<open>error\<close>; a run-time panic is the
    constructor \<open>Panic\<close>, which no caller wraps or collects.
  \<^item> The interfaces \<open>SessionStore\<close> and \<open>InvalidationCache\<close> are records of
    operations on a world \<open>'w\<close> that holds whatever the backends keep. Two interface
    values may act on the same part of the world (the default SQLite store is both the
    session store and the invalidation cache).
\<close>

subsection \<open>Time\<close>

type_synonym time = int
type_synonym duration = int

definition Second :: duration where
  "Second = 1000000000"

definition Hour :: duration where
  "Hour = 3600 * Second"

definition wrap64 :: "int \<Rightarrow> int" where
  "wrap64 x = (x + 2 ^ 63) mod 2 ^ 64 - 2 ^ 63"

definition After :: "time \<Rightarrow> time \<Rightarrow> bool" where
  "After t u = (u < t)"

definition Before :: "time \<Rightarrow> time \<Rightarrow> bool" where
  "Before t u = (t < u)"

subsection \<open>Errors\<close>

datatype error =
    Failure string
  | Wrapped string error
  | CloseErrors "error list"
  | Panic string

text \<open>\<open>fmt.Errorf("msg: %w", err)\<close> on a returned error; a panic never reaches it.\<close>

fun Errorf :: "string \<Rightarrow> error \<Rightarrow> error" where
  "Errorf msg (Panic p) = Panic p"
| "Errorf msg e = Wrapped msg e"

fun is_panic :: "error \<Rightarrow> bool" where
  "is_panic (Panic p) = True"
| "is_panic e = False"

subsection \<open>store.Session\<close>

record store_Session =
  SessionID :: string
  UserID :: string
  DeviceIP :: string
  DeviceUA :: string
  Browser :: string
  OS :: string
  DeviceType :: string
  LocCity :: string
  LocCountry :: string
  LocLat :: real
  LocLng :: real
  TTLSeconds :: int
  CreatedAt :: time

definition ExpiresAt :: "store_Session \<Rightarrow> time" where
  "ExpiresAt s = CreatedAt s + wrap64 (TTLSeconds s * Second)"

subsection \<open>The storage interfaces\<close>

record 'w SessionStore =
  ss_Save :: "store_Session \<Rightarrow> time \<Rightarrow> 'w \<Rightarrow> error option \<times> 'w"
  ss_Delete :: "string \<Rightarrow> time \<Rightarrow> 'w \<Rightarrow> error option \<times> 'w"
  ss_GetActiveByUser :: "string \<Rightarrow> time \<Rightarrow> 'w \<Rightarrow> error + store_Session list"
  ss_Close :: "'w \<Rightarrow> error option \<times> 'w"

record 'w InvalidationCache =
  ic_Set :: "string \<Rightarrow> duration \<Rightarrow> time \<Rightarrow> 'w \<Rightarrow> error option \<times> 'w"
  ic_Exists :: "string \<Rightarrow> time \<Rightarrow> 'w \<Rightarrow> error + bool"
  ic_Close :: "'w \<Rightarrow> error option \<times> 'w"

record 'w GeoIPReader =
  geo_Close :: "'w \<Rightarrow> error option \<times> 'w"

subsection \<open>Config\<close>

record 'w Config =
  SessionTTL :: duration
  InvalidationTTL :: duration
  GeoIPDatabasePath :: string
  NewLocationThresholdKM :: real
  SessionStore :: "'w SessionStore option"
  InvalidationCache :: "'w InvalidationCache option"
  DatabasePath :: string

definition DefaultConfig :: "'w Config" where
  "DefaultConfig =
     \<lparr>SessionTTL = 24 * Hour,
      InvalidationTTL = 24 * Hour,
      GeoIPDatabasePath = [],
      NewLocationThresholdKM = 100,
      SessionStore = None,
      InvalidationCache = None,
      DatabasePath = ''heimdall.db''\<rparr>"

definition applyDefaults :: "'w Config \<Rightarrow> 'w Config" where
  "applyDefaults c =
     (let defaults = (DefaultConfig :: 'w Config);
          c = (if SessionTTL c \<le> 0 then c\<lparr>SessionTTL := SessionTTL defaults\<rparr> else c);
          c = (if InvalidationTTL c \<le> 0 then c\<lparr>InvalidationTTL := SessionTTL defaults\<rparr> else c);
          c = (if NewLocationThresholdKM c \<le> 0
               then c\<lparr>NewLocationThresholdKM := NewLocationThresholdKM defaults\<rparr> else c);
          c = (if DatabasePath c = [] then c\<lparr>DatabasePath := DatabasePath defaults\<rparr> else c)
      in c)"

subsection \<open>Public entities\<close>

record DeviceInfo =
  dev_IP :: string
  dev_UserAgent :: string
  dev_Browser :: string
  dev_OS :: string
  dev_DeviceType :: string

record LocationInfo =
  loc_IP :: string
  City :: string
  Country :: string
  Latitude :: real
  Longitude :: real

record Session =
  s_SessionID :: string
  s_UserID :: string
  Device :: DeviceInfo
  Location :: LocationInfo
  s_CreatedAt :: time
  s_TTLSeconds :: int

record RegisterResult =
  r_Session :: "Session option"
  r_IsNewLocation :: bool
  r_PreviousLocation :: "LocationInfo option"
  r_ActiveSessions :: "Session list"
  r_LimitExceeded :: bool

subsection \<open>Distance policy\<close>

definition earthRadiusKM :: real where
  "earthRadiusKM = 6371"

text \<open>\<open>math.Atan2(y, x)\<close> of the Go standard library, on the reals.\<close>

definition Atan2 :: "real \<Rightarrow> real \<Rightarrow> real" where
  "Atan2 y x =
     (if 0 < x then arctan (y / x)
      else if x < 0 then (if 0 \<le> y then arctan (y / x) + pi else arctan (y / x) - pi)
      else if 0 < y then pi / 2
      else if y < 0 then - (pi / 2)
      else 0)"

definition HaversineDistance :: "real \<Rightarrow> real \<Rightarrow> real \<Rightarrow> real \<Rightarrow> real" where
  "HaversineDistance lat1 lng1 lat2 lng2 =
     (let lat1Rad = lat1 * pi / 180;
          lat2Rad = lat2 * pi / 180;
          dLat = (lat2 - lat1) * pi / 180;
          dLng = (lng2 - lng1) * pi / 180;
          a = sin (dLat / 2) * sin (dLat / 2) +
              cos lat1Rad * cos lat2Rad * sin (dLng / 2) * sin (dLng / 2);
          c = 2 * Atan2 (sqrt a) (sqrt (1 - a))
      in earthRadiusKM * c)"

definition IsNewLocation :: "LocationInfo \<Rightarrow> LocationInfo \<Rightarrow> real \<Rightarrow> bool" where
  "IsNewLocation prev current thresholdKM =
     (if Latitude prev = 0 \<and> Longitude prev = 0
      then City prev \<noteq> City current \<or> Country prev \<noteq> Country current
      else if Latitude current = 0 \<and> Longitude current = 0
      then City prev \<noteq> City current \<or> Country prev \<noteq> Country current
      else thresholdKM < HaversineDistance (Latitude prev) (Longitude prev)
                           (Latitude current) (Longitude current))"

subsection \<open>The manager\<close>

record 'w Heimdall =
  h_config :: "'w Config"
  h_sessions :: "'w SessionStore option"
  h_invalidated :: "'w InvalidationCache option"
  h_geoip :: "'w GeoIPReader option"

text \<open>
  What \<open>New\<close> takes from outside the repository: the outcome of opening the SQLite
  database (\<open>store.NewSQLite\<close>, one object that is both store and cache) and of
  opening the MaxMind database (\<open>geoip2.Open\<close>).
\<close>

record 'w Environment =
  NewSQLite :: "string \<Rightarrow> error + ('w SessionStore \<times> 'w InvalidationCache)"
  geoip2_Open :: "string \<Rightarrow> error + 'w GeoIPReader"

definition ErrGeoIPDatabaseNotConfigured :: error where
  "ErrGeoIPDatabaseNotConfigured = Failure ''heimdall: GeoIP database path not configured''"

definition nilDereference :: error where
  "nilDereference = Panic ''invalid memory address or nil pointer dereference''"

definition NewGeoIPReader :: "'w Environment \<Rightarrow> string \<Rightarrow> error + 'w GeoIPReader" where
  "NewGeoIPReader env dbPath =
     (if dbPath = [] then Inl ErrGeoIPDatabaseNotConfigured
      else case geoip2_Open env dbPath of
             Inl err \<Rightarrow> Inl (Errorf ''geoip: failed to open database'' err)
           | Inr db \<Rightarrow> Inr db)"

definition New :: "'w Environment \<Rightarrow> 'w Config \<Rightarrow> error + 'w Heimdall" where
  "New env cfg0 =
     (let cfg = applyDefaults cfg0 in
      case (case SessionStore cfg of
              Some st \<Rightarrow> Inr (Some st, None)
            | None \<Rightarrow>
                (case NewSQLite env (DatabasePath cfg) of
                   Inl err \<Rightarrow> Inl (Errorf ''heimdall: failed to initialize SQLite store'' err)
                 | Inr (sqliteStore, sqliteCache) \<Rightarrow> Inr (Some sqliteStore, Some sqliteCache))) of
        Inl err \<Rightarrow> Inl err
      | Inr (st, inv0) \<Rightarrow>
          (let inv = (case InvalidationCache cfg of Some ca \<Rightarrow> Some ca | None \<Rightarrow> inv0) in
           if GeoIPDatabasePath cfg \<noteq> [] then
             (case NewGeoIPReader env (GeoIPDatabasePath cfg) of
                Inl err \<Rightarrow> Inl (Errorf ''heimdall: failed to initialize GeoIP'' err)
              | Inr g \<Rightarrow>
                  Inr \<lparr>h_config = cfg, h_sessions = st, h_invalidated = inv, h_geoip = Some g\<rparr>)
           else Inr \<lparr>h_config = cfg, h_sessions = st, h_invalidated = inv, h_geoip = None\<rparr>))"

text \<open>
  One \<open>if x != nil { if err := x.Close(); err != nil { errs = append(errs, err) } }\<close>
  block of \<open>Close\<close>: \<open>Inl\<close> is a panic raised inside \<open>x.Close()\<close>.
\<close>

definition closeEach ::
  "('w \<Rightarrow> error option \<times> 'w) option \<Rightarrow> error list \<Rightarrow> 'w \<Rightarrow> (error + error list) \<times> 'w" where
  "closeEach cl errs w =
     (case cl of
        None \<Rightarrow> (Inr errs, w)
      | Some f \<Rightarrow>
          (case f w of
             (None, w') \<Rightarrow> (Inr errs, w')
           | (Some err, w') \<Rightarrow>
               (if is_panic err then (Inl err, w') else (Inr (errs @ [err]), w'))))"

definition Close :: "'w Heimdall \<Rightarrow> 'w \<Rightarrow> error option \<times> 'w" where
  "Close h w =
     (case closeEach (map_option ss_Close (h_sessions h)) [] w of
        (Inl p, w1) \<Rightarrow> (Some p, w1)
      | (Inr errs1, w1) \<Rightarrow>
          (case closeEach (map_option ic_Close (h_invalidated h)) errs1 w1 of
             (Inl p, w2) \<Rightarrow> (Some p, w2)
           | (Inr errs2, w2) \<Rightarrow>
               (case closeEach (map_option geo_Close (h_geoip h)) errs2 w2 of
                  (Inl p, w3) \<Rightarrow> (Some p, w3)
                | (Inr errs3, w3) \<Rightarrow>
                    (if 0 < length errs3 then (Some (CloseErrors errs3), w3)
                     else (None, w3)))))"

text \<open>
  \<open>int64(d.Seconds())\<close>: the whole seconds of a duration, truncated towards zero (the
  rounding of the intermediate \<open>float64\<close> is idealised).
\<close>

definition wholeSeconds :: "duration \<Rightarrow> int" where
  "wholeSeconds d = sgn d * (\<bar>d\<bar> div Second)"

definition storeToSession :: "store_Session \<Rightarrow> Session" where
  "storeToSession s =
     \<lparr>s_SessionID = SessionID s,
      s_UserID = UserID s,
      Device = \<lparr>dev_IP = DeviceIP s, dev_UserAgent = DeviceUA s, dev_Browser = Browser s,
                dev_OS = OS s, dev_DeviceType = DeviceType s\<rparr>,
      Location = \<lparr>loc_IP = DeviceIP s, City = LocCity s, Country = LocCountry s,
                  Latitude = LocLat s, Longitude = LocLng s\<rparr>,
      s_CreatedAt = CreatedAt s,
      s_TTLSeconds = TTLSeconds s\<rparr>"

text \<open>The location \<open>RegisterSession\<close> rebuilds from a stored session.\<close>

definition prevLocationOf :: "store_Session \<Rightarrow> LocationInfo" where
  "prevLocationOf latestSession =
     \<lparr>loc_IP = DeviceIP latestSession, City = LocCity latestSession,
      Country = LocCountry latestSession, Latitude = LocLat latestSession,
      Longitude = LocLng latestSession\<rparr>"

definition newStoreSession ::
  "'w Heimdall \<Rightarrow> string \<Rightarrow> string \<Rightarrow> DeviceInfo \<Rightarrow> LocationInfo \<Rightarrow> time \<Rightarrow> store_Session" where
  "newStoreSession h userID sessionID device location now =
     \<lparr>SessionID = sessionID, UserID = userID, DeviceIP = dev_IP device,
      DeviceUA = dev_UserAgent device, Browser = dev_Browser device, OS = dev_OS device,
      DeviceType = dev_DeviceType device, LocCity = City location,
      LocCountry = Country location, LocLat = Latitude location,
      LocLng = Longitude location,
      TTLSeconds = wholeSeconds (SessionTTL (h_config h)), CreatedAt = now\<rparr>"

definition newSession ::
  "'w Heimdall \<Rightarrow> string \<Rightarrow> string \<Rightarrow> DeviceInfo \<Rightarrow> LocationInfo \<Rightarrow> time \<Rightarrow> Session" where
  "newSession h userID sessionID device location now =
     \<lparr>s_SessionID = sessionID, s_UserID = userID, Device = device, Location = location,
      s_CreatedAt = now, s_TTLSeconds = wholeSeconds (SessionTTL (h_config h))\<rparr>"

definition RegisterSession ::
  "'w Heimdall \<Rightarrow> string \<Rightarrow> string \<Rightarrow> DeviceInfo \<Rightarrow> LocationInfo \<Rightarrow> int \<Rightarrow> time \<Rightarrow> 'w
     \<Rightarrow> (error + RegisterResult) \<times> 'w" where
  "RegisterSession h userID sessionID device location concurrentLimit now w =
     (case h_sessions h of
        None \<Rightarrow> (Inl nilDereference, w)
      | Some st \<Rightarrow>
          (case ss_GetActiveByUser st userID now w of
             Inl err \<Rightarrow> (Inl (Errorf ''heimdall: failed to get active sessions'' err), w)
           | Inr activeSessions \<Rightarrow>
               (let result = \<lparr>r_Session = None, r_IsNewLocation = False,
                               r_PreviousLocation = None,
                               r_ActiveSessions = map storeToSession activeSessions,
                               r_LimitExceeded = False\<rparr>
                in if 0 < concurrentLimit \<and> concurrentLimit \<le> int (length activeSessions)
                   then (Inr (result\<lparr>r_LimitExceeded := True\<rparr>), w)
                   else
                     (let result =
                            (case activeSessions of
                               [] \<Rightarrow> result
                             | latestSession # older \<Rightarrow>
                                 (let prevLocation = prevLocationOf latestSession in
                                  if IsNewLocation prevLocation location
                                       (NewLocationThresholdKM (h_config h))
                                  then result\<lparr>r_IsNewLocation := True,
                                              r_PreviousLocation := Some prevLocation\<rparr>
                                  else result));
                          storeSession = newStoreSession h userID sessionID device location now
                      in case ss_Save st storeSession now w of
                           (Some err, w') \<Rightarrow>
                             (Inl (Errorf ''heimdall: failed to save session'' err), w')
                         | (None, w') \<Rightarrow>
                             (let sess = newSession h userID sessionID device location now in
                              (Inr (result\<lparr>r_Session := Some sess,
                                           r_ActiveSessions := sess # r_ActiveSessions result\<rparr>),
                               w'))))))"

definition InvalidateSession ::
  "'w Heimdall \<Rightarrow> string \<Rightarrow> time \<Rightarrow> 'w \<Rightarrow> error option \<times> 'w" where
  "InvalidateSession h sessionID now w =
     (case h_sessions h of
        None \<Rightarrow> (Some nilDereference, w)
      | Some st \<Rightarrow>
          (case ss_Delete st sessionID now w of
             (Some err, w1) \<Rightarrow> (Some (Errorf ''heimdall: failed to delete session'' err), w1)
           | (None, w1) \<Rightarrow>
               (case h_invalidated h of
                  None \<Rightarrow> (Some nilDereference, w1)
                | Some ca \<Rightarrow>
                    (case ic_Set ca sessionID (InvalidationTTL (h_config h)) now w1 of
                       (Some err, w2) \<Rightarrow>
                         (Some (Errorf ''heimdall: failed to set invalidation'' err), w2)
                     | (None, w2) \<Rightarrow> (None, w2)))))"

definition IsSessionInvalidated :: "'w Heimdall \<Rightarrow> string \<Rightarrow> time \<Rightarrow> 'w \<Rightarrow> error + bool" where
  "IsSessionInvalidated h sessionID now w =
     (case h_invalidated h of
        None \<Rightarrow> Inl nilDereference
      | Some ca \<Rightarrow> ic_Exists ca sessionID now w)"

definition ListSessions :: "'w Heimdall \<Rightarrow> string \<Rightarrow> time \<Rightarrow> 'w \<Rightarrow> error + Session list" where
  "ListSessions h userID now w =
     (case h_sessions h of
        None \<Rightarrow> Inl nilDereference
      | Some st \<Rightarrow>
          (case ss_GetActiveByUser st userID now w of
             Inl err \<Rightarrow> Inl (Errorf ''heimdall: failed to list sessions'' err)
           | Inr storeSessions \<Rightarrow> Inr (map storeToSession storeSessions)))"

subsection \<open>MemoryCache\<close>

text \<open>
  \<open>entries\<close> maps a session ID to the time its invalidation expires. \<open>stopCleanup\<close> is
  the channel that stops the cleanup goroutine; of a channel that is only ever closed,
  the state is whether it has been closed (\<open>True\<close>). Closing a closed channel panics.
\<close>

record MemoryCache =
  entries :: "string \<rightharpoonup> time"
  stopCleanup :: bool

definition NewMemoryCache :: MemoryCache where
  "NewMemoryCache = \<lparr>entries = Map.empty, stopCleanup = False\<rparr>"

definition MemoryCache_Set ::
  "string \<Rightarrow> duration \<Rightarrow> time \<Rightarrow> MemoryCache \<Rightarrow> error option \<times> MemoryCache" where
  "MemoryCache_Set sessionID ttl now c =
     (None, c\<lparr>entries := (entries c)(sessionID \<mapsto> now + ttl)\<rparr>)"

definition MemoryCache_Exists :: "string \<Rightarrow> time \<Rightarrow> MemoryCache \<Rightarrow> error + bool" where
  "MemoryCache_Exists sessionID now c =
     (case entries c sessionID of
        None \<Rightarrow> Inr False
      | Some expiresAt \<Rightarrow> Inr True)"

definition MemoryCache_Close :: "MemoryCache \<Rightarrow> error option \<times> MemoryCache" where
  "MemoryCache_Close c =
     (if stopCleanup c then (Some (Panic ''close of closed channel''), c)
      else (None, c\<lparr>stopCleanup := True\<rparr>))"

definition cleanup :: "time \<Rightarrow> MemoryCache \<Rightarrow> MemoryCache" where
  "cleanup now c =
     c\<lparr>entries :=
         (\<lambda>sessionID.
            case entries c sessionID of
              None \<Rightarrow> None
            | Some expiresAt \<Rightarrow> if After now expiresAt then None else Some expiresAt)\<rparr>"

text \<open>
  One firing of the ticker of \<open>cleanupLoop\<close>, which \<open>NewMemoryCache\<close> starts with an
  interval of 48 hours; the loop has returned once \<open>stopCleanup\<close> is closed.
\<close>

definition cleanupInterval :: duration where
  "cleanupInterval = 48 * Hour"

definition cleanupTick :: "time \<Rightarrow> MemoryCache \<Rightarrow> MemoryCache" where
  "cleanupTick now c = (if stopCleanup c then c else cleanup now c)"

subsection \<open>MemorySessionStore\<close>

text \<open>
  \<open>sessions\<close> maps a session ID to its session. \<open>byUser\<close> maps a user ID to the set of
  its session IDs, a Go \<open>map[string]bool\<close>: it is kept as a list without duplicates,
  whose order stands for the order in which a \<open>range\<close> loop happens to visit the keys
  (Go leaves it unspecified).
\<close>

record MemorySessionStore =
  sessions :: "string \<rightharpoonup> store_Session"
  byUser :: "string \<rightharpoonup> string list"

definition NewMemorySessionStore :: MemorySessionStore where
  "NewMemorySessionStore = \<lparr>sessions = Map.empty, byUser = Map.empty\<rparr>"

definition MemorySessionStore_Save ::
  "store_Session \<Rightarrow> MemorySessionStore \<Rightarrow> error option \<times> MemorySessionStore" where
  "MemorySessionStore_Save session s =
     (let s = s\<lparr>sessions := (sessions s)(SessionID session \<mapsto> session)\<rparr>;
          s = (if byUser s (UserID session) = None
               then s\<lparr>byUser := (byUser s)(UserID session \<mapsto> [])\<rparr> else s);
          s = s\<lparr>byUser :=
                  (byUser s)(UserID session \<mapsto>
                     (let userSessions = the (byUser s (UserID session)) in
                      if SessionID session \<in> set userSessions then userSessions
                      else userSessions @ [SessionID session]))\<rparr>
      in (None, s))"

definition MemorySessionStore_Delete ::
  "string \<Rightarrow> MemorySessionStore \<Rightarrow> error option \<times> MemorySessionStore" where
  "MemorySessionStore_Delete sessionID s =
     (case sessions s sessionID of
        None \<Rightarrow> (None, s)
      | Some session \<Rightarrow>
          (let s = (case byUser s (UserID session) of
                      None \<Rightarrow> s
                    | Some userSessions \<Rightarrow>
                        (let userSessions = removeAll sessionID userSessions in
                         if length userSessions = 0
                         then s\<lparr>byUser := (byUser s)(UserID session := None)\<rparr>
                         else s\<lparr>byUser := (byUser s)(UserID session \<mapsto> userSessions)\<rparr>));
               s = s\<lparr>sessions := (sessions s)(sessionID := None)\<rparr>
           in (None, s)))"

text \<open>The \<open>range\<close> loop of \<open>GetActiveByUser\<close> that collects the unexpired sessions.\<close>

definition collectActive ::
  "(string \<rightharpoonup> store_Session) \<Rightarrow> time \<Rightarrow> string list \<Rightarrow> store_Session list" where
  "collectActive m now sessionIDs =
     foldl (\<lambda>active sessionID.
              case m sessionID of
                None \<Rightarrow> active
              | Some session \<Rightarrow>
                  if Before now (ExpiresAt session) then active @ [session] else active)
           [] sessionIDs"

text \<open>
  The two nested loops that sort by \<open>CreatedAt\<close> descending: for each \<open>i\<close>, every later
  \<open>j\<close> whose session is newer than the one at \<open>i\<close> is swapped with it.
\<close>

definition sortStep :: "nat \<Rightarrow> store_Session list \<Rightarrow> nat \<Rightarrow> store_Session list" where
  "sortStep i active j =
     (if After (CreatedAt (active ! j)) (CreatedAt (active ! i))
      then active[i := active ! j, j := active ! i] else active)"

definition sortInner :: "nat \<Rightarrow> store_Session list \<Rightarrow> store_Session list" where
  "sortInner i active = foldl (sortStep i) active [i + 1 ..< length active]"

definition sortByCreatedAt :: "store_Session list \<Rightarrow> store_Session list" where
  "sortByCreatedAt active =
     foldl (\<lambda>a i. sortInner i a) active [0 ..< length active - 1]"

definition MemorySessionStore_GetActiveByUser ::
  "string \<Rightarrow> time \<Rightarrow> MemorySessionStore \<Rightarrow> error + store_Session list" where
  "MemorySessionStore_GetActiveByUser userID now s =
     (case byUser s userID of
        None \<Rightarrow> Inr []
      | Some sessionIDs \<Rightarrow> Inr (sortByCreatedAt (collectActive (sessions s) now sessionIDs)))"

definition MemorySessionStore_Close ::
  "MemorySessionStore \<Rightarrow> error option \<times> MemorySessionStore" where
  "MemorySessionStore_Close s = (None, s)"

text \<open>
  The state in which the user index agrees with the stored sessions: the IDs listed for
  a user are those of the stored sessions with that \<open>UserID\<close>, each once.
\<close>

definition indexAgrees :: "MemorySessionStore \<Rightarrow> bool" where
  "indexAgrees s \<longleftrightarrow>
     (\<forall>u ids. byUser s u = Some ids \<longrightarrow> distinct ids)
   \<and> (\<forall>u sid. (\<exists>ids. byUser s u = Some ids \<and> sid \<in> set ids)
               \<longleftrightarrow> (\<exists>x. sessions s sid = Some x \<and> UserID x = u))"

subsection \<open>The in-memory backends as interface values\<close>

record MemWorld =
  mw_store :: MemorySessionStore
  mw_cache :: MemoryCache

definition onStore ::
  "(MemorySessionStore \<Rightarrow> error option \<times> MemorySessionStore) \<Rightarrow> MemWorld
     \<Rightarrow> error option \<times> MemWorld" where
  "onStore f w = (case f (mw_store w) of (err, s) \<Rightarrow> (err, w\<lparr>mw_store := s\<rparr>))"

definition onCache ::
  "(MemoryCache \<Rightarrow> error option \<times> MemoryCache) \<Rightarrow> MemWorld \<Rightarrow> error option \<times> MemWorld" where
  "onCache f w = (case f (mw_cache w) of (err, c) \<Rightarrow> (err, w\<lparr>mw_cache := c\<rparr>))"

definition memoryStore :: "MemWorld SessionStore" where
  "memoryStore =
     \<lparr>ss_Save = (\<lambda>session now. onStore (MemorySessionStore_Save session)),
      ss_Delete = (\<lambda>sessionID now. onStore (MemorySessionStore_Delete sessionID)),
      ss_GetActiveByUser =
        (\<lambda>userID now w. MemorySessionStore_GetActiveByUser userID now (mw_store w)),
      ss_Close = onStore MemorySessionStore_Close\<rparr>"

definition memoryCache :: "MemWorld InvalidationCache" where
  "memoryCache =
     \<lparr>ic_Set = (\<lambda>sessionID ttl now. onCache (MemoryCache_Set sessionID ttl now)),
      ic_Exists = (\<lambda>sessionID now w. MemoryCache_Exists sessionID now (mw_cache w)),
      ic_Close = onCache MemoryCache_Close\<rparr>"

definition newMemWorld :: MemWorld where
  "newMemWorld = \<lparr>mw_store = NewMemorySessionStore, mw_cache = NewMemoryCache\<rparr>"

text \<open>An environment in which neither SQLite nor the MaxMind database can be opened.\<close>

definition noEnvironment :: "'w Environment" where
  "noEnvironment =
     \<lparr>NewSQLite = (\<lambda>path. Inl (Failure ''sqlite: failed to open database'')),
      geoip2_Open = (\<lambda>path. Inl (Failure ''open: no such file''))\<rparr>"

text \<open>A configuration with the in-memory backends plugged in and every other field zero.\<close>

definition memoryConfig :: "MemWorld Config" where
  "memoryConfig =
     \<lparr>SessionTTL = 0, InvalidationTTL = 0, GeoIPDatabasePath = [],
      NewLocationThresholdKM = 0, SessionStore = Some memoryStore,
      InvalidationCache = Some memoryCache, DatabasePath = []\<rparr>"

text \<open>The manager that \<open>New\<close> builds from a configuration with both in-memory backends.\<close>

definition memoryManager :: "MemWorld Config \<Rightarrow> MemWorld Heimdall" where
  "memoryManager cfg =
     \<lparr>h_config = applyDefaults cfg, h_sessions = Some memoryStore,
      h_invalidated = Some memoryCache, h_geoip = None\<rparr>"

text \<open>A session store whose \<open>Delete\<close> fails, otherwise the in-memory store.\<close>

definition failingStore :: "MemWorld SessionStore" where
  "failingStore =
     memoryStore\<lparr>ss_Delete := (\<lambda>sessionID now w. (Some (Failure ''storage unavailable''), w))\<rparr>"

subsection \<open>Sample data\<close>

definition sampleDevice :: DeviceInfo where
  "sampleDevice =
     \<lparr>dev_IP = ''8.8.8.8'', dev_UserAgent = ''Mozilla/5.0'', dev_Browser = ''Chrome'',
      dev_OS = ''Windows'', dev_DeviceType = ''desktop''\<rparr>"

definition sampleSession :: "string \<Rightarrow> string \<Rightarrow> time \<Rightarrow> store_Session" where
  "sampleSession sessionID userID createdAt =
     \<lparr>SessionID = sessionID, UserID = userID, DeviceIP = ''8.8.8.8'',
      DeviceUA = ''Mozilla/5.0'', Browser = ''Chrome'', OS = ''Windows'',
      DeviceType = ''desktop'', LocCity = ''Quito'', LocCountry = ''Ecuador'',
      LocLat = 1, LocLng = 1, TTLSeconds = 3600, CreatedAt = createdAt\<rparr>"

text \<open>Two places on the meridian of longitude 1, half a degree of latitude apart.\<close>

definition placeA :: LocationInfo where
  "placeA = \<lparr>loc_IP = ''8.8.8.8'', City = ''Quito'', Country = ''Ecuador'',
              Latitude = 1, Longitude = 1\<rparr>"

definition placeB :: LocationInfo where
  "placeB = \<lparr>loc_IP = ''8.8.4.4'', City = ''Ibarra'', Country = ''Ecuador'',
              Latitude = 3 / 2, Longitude = 1\<rparr>"

text \<open>The store after \<open>Save\<close> of \<open>s1\<close> (created at 10) and \<open>s2\<close> (created at 20) of user \<open>u\<close>.\<close>

definition twoSessions :: MemWorld where
  "twoSessions =
     newMemWorld\<lparr>mw_store :=
       snd (MemorySessionStore_Save (sampleSession ''s2'' ''u'' 20)
         (snd (MemorySessionStore_Save (sampleSession ''s1'' ''u'' 10)
            NewMemorySessionStore)))\<rparr>"

text \<open>
  The world after the manager built from \<open>memoryConfig\<close> registered \<open>s1\<close> of user \<open>u\<close>
  from \<open>placeA\<close> at time 10, and the session it stored.
\<close>

definition afterFirst :: MemWorld where
  "afterFirst =
     snd (RegisterSession (memoryManager memoryConfig) ''u'' ''s1'' sampleDevice placeA 0 10
       newMemWorld)"

definition firstSession :: store_Session where
  "firstSession =
     newStoreSession (memoryManager memoryConfig) ''u'' ''s1'' sampleDevice placeA 10"

text \<open>
  The store after \<open>Save\<close> of a session \<open>s1\<close> of \<open>alice\<close> and then of a session with the
  same ID of \<open>bob\<close>.
\<close>

definition reusedID :: MemorySessionStore where
  "reusedID =
     snd (MemorySessionStore_Save (sampleSession ''s1'' ''bob'' 20)
       (snd (MemorySessionStore_Save (sampleSession ''s1'' ''alice'' 10)
          NewMemorySessionStore)))"

text \<open>
  The world after the manager registered \<open>s1\<close> for \<open>alice\<close> at time 10 and then \<open>s1\<close>
  for \<open>bob\<close> at time 20, and the session stored by the second call.
\<close>

definition aliceThenBob :: MemWorld where
  "aliceThenBob =
     snd (RegisterSession (memoryManager memoryConfig) ''bob'' ''s1'' sampleDevice placeB 0 20
       (snd (RegisterSession (memoryManager memoryConfig) ''alice'' ''s1'' sampleDevice placeA
          0 10 newMemWorld)))"

definition bobSession :: store_Session where
  "bobSession =
     newStoreSession (memoryManager memoryConfig) ''bob'' ''s1'' sampleDevice placeB 20"

text \<open>The result of a call that returned without an error.\<close>

definition resultOf :: "(error + 'a) \<times> 'w \<Rightarrow> 'a option" where
  "resultOf r = (case fst r of Inl err \<Rightarrow> None | Inr v \<Rightarrow> Some v)"

section \<open>Properties\<close>

subsection \<open>Evaluating the sample data\<close>

lemma sampleSession_simps:
  "ExpiresAt (sampleSession sid uid t) = t + 3600000000000"
  "CreatedAt (sampleSession sid uid t) = t"
  "UserID (sampleSession sid uid t) = uid"
  "SessionID (sampleSession sid uid t) = sid"
  by (simp_all add: ExpiresAt_def sampleSession_def wrap64_def Second_def)

lemma twoSessions_store:
  "mw_store twoSessions =
     \<lparr>sessions = [''s1'' \<mapsto> sampleSession ''s1'' ''u'' 10,
                  ''s2'' \<mapsto> sampleSession ''s2'' ''u'' 20],
      byUser = [''u'' \<mapsto> [''s1'', ''s2'']]\<rparr>"
  by (simp add: twoSessions_def MemorySessionStore_Save_def NewMemorySessionStore_def Let_def
      sampleSession_def)

lemma twoSessions_active:
  "ss_GetActiveByUser memoryStore ''u'' 30 twoSessions =
     Inr [sampleSession ''s2'' ''u'' 20, sampleSession ''s1'' ''u'' 10]"
  by (simp add: memoryStore_def twoSessions_store MemorySessionStore_GetActiveByUser_def
      collectActive_def sampleSession_simps Before_def After_def sortByCreatedAt_def
      sortInner_def sortStep_def upt_rec[of 0] upt_rec[of 1] upt_rec[of 2])

lemma memoryStore_Save_ok: "fst (ss_Save memoryStore s now w) = None"
  by (simp add: memoryStore_def onStore_def MemorySessionStore_Save_def Let_def
      split: prod.splits)

lemma memoryManager_sessions: "h_sessions (memoryManager cfg) = Some memoryStore"
  by (simp add: memoryManager_def)

lemma memoryStore_Save_pair:
  "ss_Save memoryStore s now w = (None, snd (ss_Save memoryStore s now w))"
  using memoryStore_Save_ok[of s now w] by (simp add: prod_eq_iff)

lemma twoSessions_other_user:
  "ss_GetActiveByUser memoryStore ''v'' 30 twoSessions = Inr []"
  by (simp add: memoryStore_def twoSessions_store MemorySessionStore_GetActiveByUser_def)

lemma New_config:
  assumes "New env cfg = Inr h"
  shows "h_config h = applyDefaults cfg"
  using assms
  by (auto simp: New_def Let_def split: option.splits sum.splits prod.splits if_splits)

lemma applyDefaults_threshold:
  "NewLocationThresholdKM (applyDefaults cfg) =
     (if NewLocationThresholdKM cfg \<le> 0 then 100 else NewLocationThresholdKM cfg)"
  by (simp add: applyDefaults_def Let_def DefaultConfig_def)

lemma New_memoryConfig:
  "SessionStore cfg = Some memoryStore \<Longrightarrow> InvalidationCache cfg = Some memoryCache \<Longrightarrow>
   GeoIPDatabasePath cfg = [] \<Longrightarrow> New noEnvironment cfg = Inr (memoryManager cfg)"
  by (simp add: New_def memoryManager_def applyDefaults_def Let_def DefaultConfig_def)

lemma firstSession_simps:
  "SessionID firstSession = ''s1''" "UserID firstSession = ''u''" "CreatedAt firstSession = 10"
  "ExpiresAt firstSession = 10 + 86400000000000"
  "LocLat firstSession = 1" "LocLng firstSession = 1"
  by (simp_all add: firstSession_def newStoreSession_def ExpiresAt_def wholeSeconds_def memoryManager_def
      applyDefaults_def Let_def memoryConfig_def DefaultConfig_def Hour_def Second_def wrap64_def placeA_def)

lemma afterFirst_store:
  "mw_store afterFirst = \<lparr>sessions = [''s1'' \<mapsto> firstSession], byUser = [''u'' \<mapsto> [''s1'']]\<rparr>"
  unfolding afterFirst_def firstSession_def[symmetric]
  apply (simp add: RegisterSession_def memoryManager_sessions Let_def)
  apply (simp add: memoryStore_def MemorySessionStore_GetActiveByUser_def newMemWorld_def NewMemorySessionStore_def
     onStore_def MemorySessionStore_Save_def Let_def firstSession_def[symmetric] firstSession_simps)
  done

lemma afterFirst_active:
  "ss_GetActiveByUser memoryStore ''u'' 20 afterFirst = Inr [firstSession]"
  by (simp add: memoryStore_def afterFirst_store MemorySessionStore_GetActiveByUser_def
      collectActive_def firstSession_simps Before_def sortByCreatedAt_def)

lemma newStoreSession_simps:
  "SessionID (newStoreSession (memoryManager memoryConfig) u s d l t) = s"
  "UserID (newStoreSession (memoryManager memoryConfig) u s d l t) = u"
  "CreatedAt (newStoreSession (memoryManager memoryConfig) u s d l t) = t"
  "ExpiresAt (newStoreSession (memoryManager memoryConfig) u s d l t) = t + 86400000000000"
  by (simp_all add: newStoreSession_def ExpiresAt_def wholeSeconds_def memoryManager_def
      applyDefaults_def Let_def memoryConfig_def DefaultConfig_def Hour_def Second_def wrap64_def)

lemma RegisterSession_memory_world:
  "byUser (mw_store w) u = None \<Longrightarrow>
   mw_store (snd (RegisterSession (memoryManager memoryConfig) u s d l 0 t w)) =
     snd (MemorySessionStore_Save (newStoreSession (memoryManager memoryConfig) u s d l t) (mw_store w))"
  by (simp add: RegisterSession_def memoryManager_sessions Let_def memoryStore_def
      MemorySessionStore_GetActiveByUser_def onStore_def split: prod.splits option.splits)

subsection \<open>Registration: the concurrent-session limit\<close>

text \<open>
  C1. Let the store return the list \<open>active\<close> for the user. With a limit greater than
  zero that \<open>active\<close> has reached, \<open>RegisterSession\<close> returns \<open>LimitExceeded = true\<close>, no
  session, no new-location alert and \<open>active\<close> in public form, and the world is the one
  it was called in: nothing was saved. With the limit 0 the check is skipped whatever
  the length of \<open>active\<close>: the new session goes to \<open>Save\<close>, and when \<open>Save\<close> succeeds
  the result carries the new session in front of \<open>active\<close> and \<open>LimitExceeded = false\<close>;
  when \<open>Save\<close> fails its error is returned.
\<close>

theorem RegisterSession_limit:
  assumes "h_sessions h = Some st"
    and "ss_GetActiveByUser st userID now w = Inr active"
  shows "(0 < limit \<and> limit \<le> int (length active) \<longrightarrow>
            RegisterSession h userID sessionID device location limit now w =
              (Inr \<lparr>r_Session = None, r_IsNewLocation = False, r_PreviousLocation = None,
                    r_ActiveSessions = map storeToSession active,
                    r_LimitExceeded = True\<rparr>, w))
       \<and> (case ss_Save st (newStoreSession h userID sessionID device location now) now w of
            (None, w') \<Rightarrow>
              (\<exists>res. RegisterSession h userID sessionID device location 0 now w = (Inr res, w')
                   \<and> \<not> r_LimitExceeded res
                   \<and> r_Session res = Some (newSession h userID sessionID device location now)
                   \<and> r_ActiveSessions res =
                       newSession h userID sessionID device location now
                         # map storeToSession active)
          | (Some err, w') \<Rightarrow>
              RegisterSession h userID sessionID device location 0 now w =
                (Inl (Errorf ''heimdall: failed to save session'' err), w'))"
  using assms
  by (auto simp: RegisterSession_def Let_def split: prod.splits option.splits list.splits)

theorem RegisterSession_limit_witness:
  "h_sessions (memoryManager memoryConfig) = Some memoryStore
   \<and> ss_GetActiveByUser memoryStore ''u'' 30 twoSessions =
       Inr [sampleSession ''s2'' ''u'' 20, sampleSession ''s1'' ''u'' 10]
   \<and> RegisterSession (memoryManager memoryConfig) ''u'' ''s3'' sampleDevice placeB 2 30
         twoSessions =
       (Inr \<lparr>r_Session = None, r_IsNewLocation = False, r_PreviousLocation = None,
             r_ActiveSessions = map storeToSession
               [sampleSession ''s2'' ''u'' 20, sampleSession ''s1'' ''u'' 10],
             r_LimitExceeded = True\<rparr>, twoSessions)
   \<and> map_option r_LimitExceeded
         (resultOf (RegisterSession (memoryManager memoryConfig) ''u'' ''s3'' sampleDevice
            placeB 0 30 twoSessions)) = Some False
   \<and> map_option (map s_SessionID \<circ> r_ActiveSessions)
         (resultOf (RegisterSession (memoryManager memoryConfig) ''u'' ''s3'' sampleDevice
            placeB 0 30 twoSessions)) = Some [''s3'', ''s2'', ''s1'']"
proof -
  note h = memoryManager_sessions[of memoryConfig]
  note t = RegisterSession_limit[OF h twoSessions_active, of _ "''s3''" sampleDevice placeB]
  from t[of 2]
  have a: "RegisterSession (memoryManager memoryConfig) ''u'' ''s3'' sampleDevice placeB 2 30
             twoSessions =
           (Inr \<lparr>r_Session = None, r_IsNewLocation = False, r_PreviousLocation = None,
                 r_ActiveSessions = map storeToSession
                   [sampleSession ''s2'' ''u'' 20, sampleSession ''s1'' ''u'' 10],
                 r_LimitExceeded = True\<rparr>, twoSessions)"
    by simp
  from t[of 0]
    memoryStore_Save_ok[of "newStoreSession (memoryManager memoryConfig) ''u'' ''s3''
                              sampleDevice placeB 30" 30 twoSessions]
  obtain res w' where b:
    "RegisterSession (memoryManager memoryConfig) ''u'' ''s3'' sampleDevice placeB 0 30
       twoSessions = (Inr res, w')"
    "\<not> r_LimitExceeded res"
    "r_ActiveSessions res =
       newSession (memoryManager memoryConfig) ''u'' ''s3'' sampleDevice placeB 30
         # map storeToSession [sampleSession ''s2'' ''u'' 20, sampleSession ''s1'' ''u'' 10]"
    by (auto split: prod.splits option.splits)
  show ?thesis using h twoSessions_active a b
    by (simp add: resultOf_def newSession_def storeToSession_def sampleSession_simps)
qed

subsection \<open>Invalidation\<close>

text \<open>
  C4. \<open>InvalidateSession\<close> calls \<open>Delete\<close> of the store first. When \<open>Delete\<close> returns an
  error, that error is returned (wrapped) and the world is the one \<open>Delete\<close> left:
  \<open>Set\<close> of the cache has not run. When \<open>Delete\<close> succeeds, \<open>Set\<close> of the cache runs
  on the world \<open>Delete\<close> left, with the configured invalidation TTL, and its error, if
  any, is returned (wrapped).
\<close>

theorem InvalidateSession_delete_then_set:
  assumes "h_sessions h = Some st"
  shows "(case ss_Delete st sessionID now w of
            (Some err, w1) \<Rightarrow>
              InvalidateSession h sessionID now w =
                (Some (Errorf ''heimdall: failed to delete session'' err), w1)
          | (None, w1) \<Rightarrow>
              (\<forall>ca. h_invalidated h = Some ca \<longrightarrow>
                 (case ic_Set ca sessionID (InvalidationTTL (h_config h)) now w1 of
                    (Some err, w2) \<Rightarrow>
                      InvalidateSession h sessionID now w =
                        (Some (Errorf ''heimdall: failed to set invalidation'' err), w2)
                  | (None, w2) \<Rightarrow> InvalidateSession h sessionID now w = (None, w2))))"
  using assms
  by (auto simp: InvalidateSession_def split: prod.splits option.splits)

theorem InvalidateSession_delete_then_set_witness:
  "h_sessions (memoryManager memoryConfig\<lparr>h_sessions := Some failingStore\<rparr>) = Some failingStore
   \<and> InvalidateSession (memoryManager memoryConfig\<lparr>h_sessions := Some failingStore\<rparr>)
        ''s1'' 30 twoSessions =
       (Some (Wrapped ''heimdall: failed to delete session'' (Failure ''storage unavailable'')),
        twoSessions)
   \<and> h_sessions (memoryManager memoryConfig) = Some memoryStore
   \<and> fst (InvalidateSession (memoryManager memoryConfig) ''s1'' 30 twoSessions) = None
   \<and> entries (mw_cache (snd (InvalidateSession (memoryManager memoryConfig) ''s1'' 30
         twoSessions))) ''s1'' = Some (30 + 24 * Hour)
   \<and> ss_GetActiveByUser memoryStore ''u'' 30
         (snd (InvalidateSession (memoryManager memoryConfig) ''s1'' 30 twoSessions)) =
       Inr [sampleSession ''s2'' ''u'' 20]"
proof -
  have f: "h_sessions (memoryManager memoryConfig\<lparr>h_sessions := Some failingStore\<rparr>) = Some failingStore"
    by simp
  have d: "ss_Delete failingStore ''s1'' 30 twoSessions = (Some (Failure ''storage unavailable''), twoSessions)"
    by (simp add: failingStore_def)
  have a: "InvalidateSession (memoryManager memoryConfig\<lparr>h_sessions := Some failingStore\<rparr>)
        ''s1'' 30 twoSessions =
       (Some (Wrapped ''heimdall: failed to delete session'' (Failure ''storage unavailable'')),
        twoSessions)"
    using InvalidateSession_delete_then_set[OF f, of "''s1''" 30 twoSessions] by (simp add: d)
  define W1 where "W1 = twoSessions\<lparr>mw_store :=
      \<lparr>sessions = [''s2'' \<mapsto> sampleSession ''s2'' ''u'' 20], byUser = [''u'' \<mapsto> [''s2'']]\<rparr>\<rparr>"
  have d2: "ss_Delete memoryStore ''s1'' 30 twoSessions = (None, W1)"
    by (simp add: memoryStore_def onStore_def twoSessions_store MemorySessionStore_Delete_def
        sampleSession_simps Let_def fun_upd_twist W1_def)
  have i: "h_invalidated (memoryManager memoryConfig) = Some memoryCache"
    by (simp add: memoryManager_def)
  have ttl: "InvalidationTTL (h_config (memoryManager memoryConfig)) = 24 * Hour"
    by (simp add: memoryManager_def applyDefaults_def memoryConfig_def Let_def DefaultConfig_def)
  have c0: "mw_cache W1 = NewMemoryCache"
    by (simp add: W1_def twoSessions_def newMemWorld_def)
  have s: "ic_Set memoryCache ''s1'' (24 * Hour) 30 W1 =
      (None, W1\<lparr>mw_cache := \<lparr>entries = [''s1'' \<mapsto> 30 + 24 * Hour], stopCleanup = False\<rparr>\<rparr>)"
    by (simp add: memoryCache_def onCache_def MemoryCache_Set_def c0 NewMemoryCache_def)
  have b: "InvalidateSession (memoryManager memoryConfig) ''s1'' 30 twoSessions =
     (None, W1\<lparr>mw_cache := \<lparr>entries = [''s1'' \<mapsto> 30 + 24 * Hour], stopCleanup = False\<rparr>\<rparr>)"
    using InvalidateSession_delete_then_set[OF memoryManager_sessions, of memoryConfig "''s1''" 30 twoSessions]
    by (simp add: d2 i ttl s)
  show ?thesis
    using f a
    by (simp add: b W1_def memoryManager_sessions memoryStore_def MemorySessionStore_GetActiveByUser_def
        collectActive_def sampleSession_simps Before_def sortByCreatedAt_def)
qed

subsection \<open>Distance policy\<close>

lemma Atan2_sin_cos:
  assumes "0 \<le> x" and "x < pi / 2"
  shows "Atan2 (sqrt (sin x * sin x)) (sqrt (1 - sin x * sin x)) = x"
proof -
  have s: "0 \<le> sin x" using assms pi_gt_zero by (intro sin_ge_zero) linarith+
  have c: "0 < cos x" using assms by (intro cos_gt_zero_pi) linarith+
  have "1 - sin x * sin x = cos x * cos x"
    using sin_cos_squared_add[of x] by (simp add: power2_eq_square algebra_simps)
  then have c2: "sqrt (1 - sin x * sin x) = cos x" using c by simp
  have s2: "sqrt (sin x * sin x) = sin x" using s by simp
  have "arctan (sin x / cos x) = x"
    using arctan_tan[of x] assms by (simp add: tan_def)
  then show ?thesis using c s by (simp add: Atan2_def c2)
qed

lemma HaversineDistance_same_longitude:
  assumes "lat1 \<le> lat2" and "lat2 - lat1 < 180"
  shows "HaversineDistance lat1 lng lat2 lng = earthRadiusKM * ((lat2 - lat1) * pi / 180)"
proof -
  define x where "x = (lat2 - lat1) * pi / 180 / 2"
  have x0: "0 \<le> x" using assms pi_gt_zero by (simp add: x_def)
  have "(lat2 - lat1) * pi < 180 * pi" using assms pi_gt_zero by simp
  then have x1: "x < pi / 2" by (simp add: x_def)
  have "HaversineDistance lat1 lng lat2 lng =
        earthRadiusKM * (2 * Atan2 (sqrt (sin x * sin x)) (sqrt (1 - sin x * sin x)))"
    by (simp add: HaversineDistance_def Let_def x_def)
  also have "\<dots> = earthRadiusKM * (2 * x)" using Atan2_sin_cos[OF x0 x1] by simp
  finally show ?thesis by (simp add: x_def)
qed

lemma HaversineDistance_A_B:
  "HaversineDistance 1 1 (3 / 2) 1 = 6371 * pi / 360"
  using HaversineDistance_same_longitude[of 1 "3 / 2" 1] by (simp add: earthRadiusKM_def)

lemma HaversineDistance_A_B_bounds:
  "30 < HaversineDistance 1 1 (3 / 2) 1" "HaversineDistance 1 1 (3 / 2) 1 < 100"
  using pi_ge_two pi_less_4 by (simp_all add: HaversineDistance_A_B)

text \<open>
  C7. For two locations whose coordinates are known (neither has latitude and longitude
  both zero) and any threshold, \<open>IsNewLocation\<close> is true exactly when the haversine
  distance is strictly greater than the threshold: a distance equal to the threshold is
  not flagged, a distance of the threshold plus a positive \<open>\<epsilon>\<close> is.
\<close>

theorem IsNewLocation_strict:
  assumes "\<not> (Latitude prev = 0 \<and> Longitude prev = 0)"
    and "\<not> (Latitude current = 0 \<and> Longitude current = 0)"
  shows "(IsNewLocation prev current t \<longleftrightarrow>
            t < HaversineDistance (Latitude prev) (Longitude prev)
                  (Latitude current) (Longitude current))
       \<and> (HaversineDistance (Latitude prev) (Longitude prev)
              (Latitude current) (Longitude current) = t \<longrightarrow>
            \<not> IsNewLocation prev current t)
       \<and> (\<forall>\<epsilon>. 0 < \<epsilon> \<and> HaversineDistance (Latitude prev) (Longitude prev)
              (Latitude current) (Longitude current) = t + \<epsilon> \<longrightarrow>
            IsNewLocation prev current t)"
  using assms by (auto simp: IsNewLocation_def)

theorem IsNewLocation_strict_witness:
  "\<not> (Latitude placeA = 0 \<and> Longitude placeA = 0)
   \<and> \<not> (Latitude placeB = 0 \<and> Longitude placeB = 0)
   \<and> HaversineDistance (Latitude placeA) (Longitude placeA) (Latitude placeB)
        (Longitude placeB) = 6371 * pi / 360
   \<and> \<not> IsNewLocation placeA placeB (6371 * pi / 360)
   \<and> IsNewLocation placeA placeB (6371 * pi / 360 - 1 / 1000000)"
proof -
  have a: "\<not> (Latitude placeA = 0 \<and> Longitude placeA = 0)" by (simp add: placeA_def)
  have b: "\<not> (Latitude placeB = 0 \<and> Longitude placeB = 0)" by (simp add: placeB_def)
  have d: "HaversineDistance (Latitude placeA) (Longitude placeA) (Latitude placeB)
        (Longitude placeB) = 6371 * pi / 360"
    by (simp add: placeA_def placeB_def HaversineDistance_A_B)
  show ?thesis
    using a b d IsNewLocation_strict[OF a b, of "6371 * pi / 360"]
      IsNewLocation_strict[OF a b, of "6371 * pi / 360 - 1 / 1000000"]
    by simp
qed

subsection \<open>Registration: the new-location verdict\<close>

text \<open>
  C5. In a registration that is admitted (the limit is not reached and \<open>Save\<close>
  succeeds), when the list of active sessions is not empty the verdict is \<open>IsNewLocation\<close>
  applied to the location of the first element of the list, the current location and
  the configured threshold, and to nothing else; when the verdict is true
  \<open>PreviousLocation\<close> is the location of that first element, otherwise it is absent.
  When the list is empty the verdict is false and \<open>PreviousLocation\<close> is absent.
\<close>

theorem RegisterSession_new_location:
  assumes "h_sessions h = Some st"
    and "ss_GetActiveByUser st userID now w = Inr active"
    and "\<not> (0 < limit \<and> limit \<le> int (length active))"
    and "ss_Save st (newStoreSession h userID sessionID device location now) now w = (None, w')"
  shows "\<exists>res. RegisterSession h userID sessionID device location limit now w = (Inr res, w')
     \<and> (case active of
          [] \<Rightarrow> \<not> r_IsNewLocation res \<and> r_PreviousLocation res = None
        | latestSession # older \<Rightarrow>
            (r_IsNewLocation res \<longleftrightarrow>
               IsNewLocation (Location (storeToSession latestSession)) location
                 (NewLocationThresholdKM (h_config h)))
            \<and> r_PreviousLocation res =
                (if r_IsNewLocation res then Some (Location (storeToSession latestSession))
                 else None))"
  using assms
  by (auto simp: RegisterSession_def Let_def prevLocationOf_def storeToSession_def
      split: list.splits)

theorem RegisterSession_new_location_witness:
  "h_sessions (memoryManager (memoryConfig\<lparr>NewLocationThresholdKM := 30\<rparr>)) = Some memoryStore
   \<and> ss_GetActiveByUser memoryStore ''u'' 30 twoSessions =
       Inr [sampleSession ''s2'' ''u'' 20, sampleSession ''s1'' ''u'' 10]
   \<and> \<not> (0 < (3::int) \<and> 3 \<le> int (length [sampleSession ''s2'' ''u'' 20,
                                              sampleSession ''s1'' ''u'' 10]))
   \<and> fst (ss_Save memoryStore
            (newStoreSession (memoryManager (memoryConfig\<lparr>NewLocationThresholdKM := 30\<rparr>))
               ''u'' ''s3'' sampleDevice placeB 30) 30 twoSessions) = None
   \<and> map_option (\<lambda>res. (r_IsNewLocation res, r_PreviousLocation res))
        (resultOf (RegisterSession (memoryManager (memoryConfig\<lparr>NewLocationThresholdKM := 30\<rparr>))
           ''u'' ''s3'' sampleDevice placeB 3 30 twoSessions)) = Some (True, Some placeA)
   \<and> ss_GetActiveByUser memoryStore ''v'' 30 twoSessions = Inr []
   \<and> map_option (\<lambda>res. (r_IsNewLocation res, r_PreviousLocation res))
        (resultOf (RegisterSession (memoryManager (memoryConfig\<lparr>NewLocationThresholdKM := 30\<rparr>))
           ''v'' ''s3'' sampleDevice placeB 3 30 twoSessions)) = Some (False, None)"
proof -
  define M where "M = memoryManager (memoryConfig\<lparr>NewLocationThresholdKM := 30\<rparr>)"
  have h: "h_sessions M = Some memoryStore" by (simp add: M_def memoryManager_sessions)
  have t: "NewLocationThresholdKM (h_config M) = 30"
    by (simp add: M_def memoryManager_def applyDefaults_def Let_def memoryConfig_def)
  have l: "\<not> (0 < (3::int) \<and> 3 \<le> int (length [sampleSession ''s2'' ''u'' 20,
                                              sampleSession ''s1'' ''u'' 10]))" by simp
  have l0: "\<not> (0 < (3::int) \<and> 3 \<le> int (length ([] :: store_Session list)))" by simp
  have loc: "Location (storeToSession (sampleSession ''s2'' ''u'' 20)) = placeA"
    by (simp add: storeToSession_def sampleSession_def placeA_def)
  have new: "IsNewLocation placeA placeB 30"
    using HaversineDistance_A_B_bounds by (simp add: IsNewLocation_def placeA_def placeB_def)
  from RegisterSession_new_location[OF h twoSessions_active l memoryStore_Save_pair,
      of "''s3''" sampleDevice placeB]
  have a: "map_option (\<lambda>res. (r_IsNewLocation res, r_PreviousLocation res))
        (resultOf (RegisterSession M ''u'' ''s3'' sampleDevice placeB 3 30 twoSessions)) =
        Some (True, Some placeA)"
    by (auto simp: resultOf_def loc t new)
  from RegisterSession_new_location[OF h twoSessions_other_user l0 memoryStore_Save_pair,
      of "''s3''" sampleDevice placeB]
  have b: "map_option (\<lambda>res. (r_IsNewLocation res, r_PreviousLocation res))
        (resultOf (RegisterSession M ''v'' ''s3'' sampleDevice placeB 3 30 twoSessions)) =
        Some (False, None)"
    by (auto simp: resultOf_def)
  show ?thesis
    using h twoSessions_active twoSessions_other_user a b memoryStore_Save_ok
    unfolding M_def by simp
qed

subsection \<open>Configuration defaults\<close>

text \<open>
  C8. A manager constructed with \<open>NewLocationThresholdKM = 0\<close> does not operate with a
  threshold of zero. The field's zero value counts as unset, as any value that is not
  positive does, and \<open>applyDefaults\<close> replaces it by 100: with the in-memory backends,
  after a first session at \<open>placeA\<close>, a registration from \<open>placeB\<close>, at a distance
  greater than zero, is not flagged.
\<close>

theorem zero_threshold_counterexample:
  "New noEnvironment memoryConfig = Inr (memoryManager memoryConfig)
   \<and> NewLocationThresholdKM memoryConfig = 0
   \<and> NewLocationThresholdKM (h_config (memoryManager memoryConfig)) = 100
   \<and> ss_GetActiveByUser memoryStore ''u'' 20 afterFirst = Inr [firstSession]
   \<and> 0 < HaversineDistance (LocLat firstSession) (LocLng firstSession)
           (Latitude placeB) (Longitude placeB)
   \<and> map_option r_IsNewLocation
        (resultOf (RegisterSession (memoryManager memoryConfig) ''u'' ''s2'' sampleDevice
           placeB 0 20 afterFirst)) = Some False"
proof -
  have n: "New noEnvironment memoryConfig = Inr (memoryManager memoryConfig)"
    by (rule New_memoryConfig) (simp_all add: memoryConfig_def)
  have z: "NewLocationThresholdKM memoryConfig = 0" by (simp add: memoryConfig_def)
  have t: "NewLocationThresholdKM (h_config (memoryManager memoryConfig)) = 100"
    by (simp add: memoryManager_def applyDefaults_threshold z)
  have d: "0 < HaversineDistance (LocLat firstSession) (LocLng firstSession)
           (Latitude placeB) (Longitude placeB)"
    using HaversineDistance_A_B_bounds by (simp add: firstSession_simps placeB_def)
  have o: "\<not> IsNewLocation (prevLocationOf firstSession) placeB 100"
    using HaversineDistance_A_B_bounds
    by (simp add: IsNewLocation_def prevLocationOf_def firstSession_simps placeB_def)
  have r: "map_option r_IsNewLocation
        (resultOf (RegisterSession (memoryManager memoryConfig) ''u'' ''s2'' sampleDevice
           placeB 0 20 afterFirst)) = Some False"
    using memoryStore_Save_ok[of "newStoreSession (memoryManager memoryConfig) ''u'' ''s2'' sampleDevice
           placeB 20" 20 afterFirst]
    by (auto simp: RegisterSession_def memoryManager_sessions afterFirst_active Let_def t o resultOf_def
        split: prod.splits option.splits)
  show ?thesis using n z t afterFirst_active d r by simp
qed

text \<open>
  C8, as the code has it. A manager constructed from a configuration whose
  \<open>NewLocationThresholdKM\<close> is zero or negative operates with the threshold 100: an
  admitted registration is flagged, relative to the known coordinates of the most
  recent session, exactly when the distance exceeds 100. \<open>IsNewLocation\<close> itself,
  given the threshold 0, flags every distance greater than zero.
\<close>

theorem nonpositive_threshold_default:
  assumes "New env cfg = Inr h"
    and "NewLocationThresholdKM cfg \<le> 0"
    and "h_sessions h = Some st"
    and "ss_GetActiveByUser st userID now w = Inr (latestSession # older)"
    and "\<not> (0 < limit \<and> limit \<le> int (length (latestSession # older)))"
    and "ss_Save st (newStoreSession h userID sessionID device location now) now w = (None, w')"
    and "\<not> (LocLat latestSession = 0 \<and> LocLng latestSession = 0)"
    and "\<not> (Latitude location = 0 \<and> Longitude location = 0)"
  shows "NewLocationThresholdKM (h_config h) = 100
     \<and> (\<exists>res. RegisterSession h userID sessionID device location limit now w = (Inr res, w')
          \<and> (r_IsNewLocation res \<longleftrightarrow>
                100 < HaversineDistance (LocLat latestSession) (LocLng latestSession)
                        (Latitude location) (Longitude location)))
     \<and> (IsNewLocation (prevLocationOf latestSession) location 0 \<longleftrightarrow>
          0 < HaversineDistance (LocLat latestSession) (LocLng latestSession)
                (Latitude location) (Longitude location))"
proof -
  have t: "NewLocationThresholdKM (h_config h) = 100"
    using assms(1,2) by (simp add: New_config applyDefaults_threshold)
  have i: "IsNewLocation (prevLocationOf latestSession) location x \<longleftrightarrow>
          x < HaversineDistance (LocLat latestSession) (LocLng latestSession)
                (Latitude location) (Longitude location)" for x
    using assms(7,8) by (auto simp: IsNewLocation_def prevLocationOf_def)
  show ?thesis
    using assms(3-6) by (auto simp: t i RegisterSession_def Let_def)
qed

theorem nonpositive_threshold_default_witness:
  "New noEnvironment memoryConfig = Inr (memoryManager memoryConfig)
   \<and> NewLocationThresholdKM memoryConfig \<le> 0
   \<and> h_sessions (memoryManager memoryConfig) = Some memoryStore
   \<and> ss_GetActiveByUser memoryStore ''u'' 20 afterFirst = Inr [firstSession]
   \<and> \<not> (0 < (0::int) \<and> 0 \<le> int (length [firstSession]))
   \<and> fst (ss_Save memoryStore
            (newStoreSession (memoryManager memoryConfig) ''u'' ''s2'' sampleDevice placeB 20)
            20 afterFirst) = None
   \<and> \<not> (LocLat firstSession = 0 \<and> LocLng firstSession = 0)
   \<and> \<not> (Latitude placeB = 0 \<and> Longitude placeB = 0)
   \<and> NewLocationThresholdKM (h_config (memoryManager memoryConfig)) = 100
   \<and> HaversineDistance (LocLat firstSession) (LocLng firstSession)
        (Latitude placeB) (Longitude placeB) = 6371 * pi / 360
   \<and> map_option r_IsNewLocation
        (resultOf (RegisterSession (memoryManager memoryConfig) ''u'' ''s2'' sampleDevice
           placeB 0 20 afterFirst)) = Some False
   \<and> IsNewLocation (prevLocationOf firstSession) placeB 0"
proof -
  have n: "New noEnvironment memoryConfig = Inr (memoryManager memoryConfig)"
    by (rule New_memoryConfig) (simp_all add: memoryConfig_def)
  have z: "NewLocationThresholdKM memoryConfig \<le> 0" by (simp add: memoryConfig_def)
  have l: "\<not> (0 < (0::int) \<and> 0 \<le> int (length [firstSession]))" by simp
  have a: "\<not> (LocLat firstSession = 0 \<and> LocLng firstSession = 0)"
    by (simp add: firstSession_simps)
  have b: "\<not> (Latitude placeB = 0 \<and> Longitude placeB = 0)" by (simp add: placeB_def)
  have d: "HaversineDistance (LocLat firstSession) (LocLng firstSession)
        (Latitude placeB) (Longitude placeB) = 6371 * pi / 360"
    by (simp add: firstSession_simps placeB_def HaversineDistance_A_B)
  from nonpositive_threshold_default[OF n z memoryManager_sessions afterFirst_active l
      memoryStore_Save_pair[of "newStoreSession (memoryManager memoryConfig) ''u'' ''s2''
                                  sampleDevice placeB 20" 20 afterFirst] a b]
    pi_less_4
  have c: "NewLocationThresholdKM (h_config (memoryManager memoryConfig)) = 100"
    "map_option r_IsNewLocation
        (resultOf (RegisterSession (memoryManager memoryConfig) ''u'' ''s2'' sampleDevice
           placeB 0 20 afterFirst)) = Some False"
    "IsNewLocation (prevLocationOf firstSession) placeB 0"
    by (auto simp: d resultOf_def)
  show ?thesis
    using n z memoryManager_sessions afterFirst_active a b d c memoryStore_Save_ok by simp
qed

text \<open>
  C3. Evaluation of the constructor on a configuration with \<open>SessionTTL\<close> of 48 hours
  and \<open>InvalidationTTL\<close> unset: the manager keeps the session TTL of 48 hours and gets
  an invalidation TTL of 24 hours, the session TTL of \<open>DefaultConfig\<close>, not the
  configured one.
\<close>

theorem InvalidationTTL_default_fixed:
  "New noEnvironment (memoryConfig\<lparr>SessionTTL := 48 * Hour\<rparr>) =
     Inr (memoryManager (memoryConfig\<lparr>SessionTTL := 48 * Hour\<rparr>))
   \<and> InvalidationTTL (memoryConfig\<lparr>SessionTTL := 48 * Hour\<rparr>) = 0
   \<and> SessionTTL (h_config (memoryManager (memoryConfig\<lparr>SessionTTL := 48 * Hour\<rparr>))) = 48 * Hour
   \<and> InvalidationTTL (h_config (memoryManager (memoryConfig\<lparr>SessionTTL := 48 * Hour\<rparr>))) = 24 * Hour"
  by (simp add: New_memoryConfig memoryConfig_def memoryManager_def applyDefaults_def Let_def
      DefaultConfig_def Hour_def Second_def)

subsection \<open>MemoryCache\<close>

text \<open>
  C2. Evaluation of \<open>Exists\<close> after expiry: \<open>s1\<close> is set at time 0 with a TTL of one
  hour, so its entry expires at one hour; at two hours, before the first cleanup (48
  hours), \<open>Exists\<close> still answers true. \<open>Exists\<close> looks the key up and never compares
  the stored expiry with the clock.
\<close>

theorem MemoryCache_Exists_after_expiry:
  "entries (snd (MemoryCache_Set ''s1'' Hour 0 NewMemoryCache)) ''s1'' = Some Hour
   \<and> After (2 * Hour) Hour
   \<and> 2 * Hour < cleanupInterval
   \<and> MemoryCache_Exists ''s1'' (2 * Hour) (snd (MemoryCache_Set ''s1'' Hour 0 NewMemoryCache))
       = Inr True"
  by (simp add: MemoryCache_Set_def MemoryCache_Exists_def NewMemoryCache_def After_def
      Hour_def Second_def cleanupInterval_def)

text \<open>
  C9. Evaluation of a second \<open>Close\<close>: the first \<open>Close\<close> of a new cache returns no
  error and closes the channel \<open>stopCleanup\<close>; the second closes the closed channel
  and panics. The manager's \<open>Close\<close> calls the cache's, so a second \<open>Close\<close> of a
  manager with the in-memory cache panics too.
\<close>

theorem Close_twice_panics:
  "MemoryCache_Close NewMemoryCache = (None, NewMemoryCache\<lparr>stopCleanup := True\<rparr>)
   \<and> MemoryCache_Close (NewMemoryCache\<lparr>stopCleanup := True\<rparr>) =
       (Some (Panic ''close of closed channel''), NewMemoryCache\<lparr>stopCleanup := True\<rparr>)
   \<and> fst (Close (memoryManager memoryConfig) newMemWorld) = None
   \<and> fst (Close (memoryManager memoryConfig)
            (snd (Close (memoryManager memoryConfig) newMemWorld))) =
       Some (Panic ''close of closed channel'')"
  by (simp add: MemoryCache_Close_def NewMemoryCache_def Close_def closeEach_def
      memoryManager_def memoryStore_def memoryCache_def onStore_def onCache_def
      MemorySessionStore_Close_def newMemWorld_def)

subsection \<open>MemorySessionStore\<close>

text \<open>The sorting loops: each swap keeps the elements, and the loops leave them in order.\<close>

lemma sortStep_length [simp]: "length (sortStep i a j) = length a"
  by (simp add: sortStep_def)

lemma sortStep_mset:
  "i < length a \<Longrightarrow> j < length a \<Longrightarrow> mset (sortStep i a j) = mset a"
  by (simp add: sortStep_def mset_swap)

lemma sortStep_nth_other:
  "p \<noteq> i \<Longrightarrow> p \<noteq> j \<Longrightarrow> sortStep i a j ! p = a ! p"
  by (simp add: sortStep_def)

lemma sortStep_nth_i:
  "i < length a \<Longrightarrow> j < length a \<Longrightarrow> i \<noteq> j \<Longrightarrow>
   sortStep i a j ! i = (if CreatedAt (a ! i) < CreatedAt (a ! j) then a ! j else a ! i)"
  by (simp add: sortStep_def After_def)

lemma sortStep_nth_j:
  "i < length a \<Longrightarrow> j < length a \<Longrightarrow>
   sortStep i a j ! j = (if CreatedAt (a ! i) < CreatedAt (a ! j) then a ! i else a ! j)"
  by (simp add: sortStep_def After_def)

text \<open>The invariant of the inner loop, after the iterations \<open>j = i + 1, \<dots>, n - 1\<close>.\<close>

lemma sortInner_invariant:
  assumes "i < length a" and "n \<le> length a"
  shows "length (foldl (sortStep i) a [i + 1 ..< n]) = length a
       \<and> mset (foldl (sortStep i) a [i + 1 ..< n]) = mset a
       \<and> (\<forall>p. p < i \<or> (i < p \<and> n \<le> p) \<longrightarrow> foldl (sortStep i) a [i + 1 ..< n] ! p = a ! p)
       \<and> (\<forall>q. i < q \<and> q < n \<longrightarrow>
             CreatedAt (foldl (sortStep i) a [i + 1 ..< n] ! q)
               \<le> CreatedAt (foldl (sortStep i) a [i + 1 ..< n] ! i))"
  using assms(2)
proof (induction n)
  case 0
  then show ?case by simp
next
  case (Suc n)
  show ?case
  proof (cases "i + 1 \<le> n")
    case False
    then show ?thesis by auto
  next
    case True
    define r where "r = foldl (sortStep i) a [i + 1 ..< n]"
    have step: "foldl (sortStep i) a [i + 1 ..< Suc n] = sortStep i r n"
      using True by (simp add: r_def)
    from Suc have n: "n < length a" by simp
    from Suc.IH n have IH:
      "length r = length a \<and> mset r = mset a
       \<and> (\<forall>p. p < i \<or> (i < p \<and> n \<le> p) \<longrightarrow> r ! p = a ! p)
       \<and> (\<forall>q. i < q \<and> q < n \<longrightarrow> CreatedAt (r ! q) \<le> CreatedAt (r ! i))"
      unfolding r_def by (simp del: One_nat_def)
    from IH have len: "length r = length a" and ms: "mset r = mset a" by blast+
    from IH have same: "r ! p = a ! p" if "p < i \<or> (i < p \<and> n \<le> p)" for p
      using that by blast
    from IH have le: "CreatedAt (r ! q) \<le> CreatedAt (r ! i)" if "i < q" "q < n" for q
      using that by blast
    have i: "i < length r" "n < length r" "i \<noteq> n" using assms(1) n True len by simp_all
    have "mset (sortStep i r n) = mset a" using i ms by (simp add: sortStep_mset)
    moreover have "sortStep i r n ! p = a ! p" if "p < i \<or> (i < p \<and> Suc n \<le> p)" for p
      using that same[of p] True by (auto simp: sortStep_nth_other)
    moreover have "CreatedAt (sortStep i r n ! q) \<le> CreatedAt (sortStep i r n ! i)"
      if "i < q" "q < Suc n" for q
    proof (cases "q = n")
      case True
      then show ?thesis using i by (simp add: sortStep_nth_i sortStep_nth_j)
    next
      case False
      with that have "q < n" by simp
      with le[of q] that have "CreatedAt (r ! q) \<le> CreatedAt (r ! i)" by simp
      moreover have "sortStep i r n ! q = r ! q" using that False by (simp add: sortStep_nth_other)
      ultimately show ?thesis using i by (simp add: sortStep_nth_i)
    qed
    ultimately show ?thesis unfolding step using len by simp
  qed
qed

lemma sortInner_props:
  assumes "i < length a"
  shows "length (sortInner i a) = length a"
    and "mset (sortInner i a) = mset a"
    and "p < i \<Longrightarrow> sortInner i a ! p = a ! p"
    and "i < q \<Longrightarrow> q < length a \<Longrightarrow>
         CreatedAt (sortInner i a ! q) \<le> CreatedAt (sortInner i a ! i)"
  using sortInner_invariant[OF assms, of "length a"] by (simp_all add: sortInner_def)

lemma sortInner_drop:
  assumes "i < length a"
  shows "mset (drop i (sortInner i a)) = mset (drop i a)"
proof -
  have "take i (sortInner i a) = take i a"
    using assms by (intro nth_take_lemma) (simp_all add: sortInner_props)
  moreover have "mset (take i (sortInner i a)) + mset (drop i (sortInner i a)) =
                 mset (take i a) + mset (drop i a)"
    using sortInner_props(2)[OF assms] by (simp flip: mset_append)
  ultimately show ?thesis by simp
qed

text \<open>The invariant of the outer loop, after the iterations \<open>i = 0, \<dots>, m - 1\<close>.\<close>

lemma sortOuter_invariant:
  assumes "m \<le> length a - 1"
  shows "length (foldl (\<lambda>a i. sortInner i a) a [0 ..< m]) = length a
       \<and> mset (foldl (\<lambda>a i. sortInner i a) a [0 ..< m]) = mset a
       \<and> (\<forall>p q. p < m \<and> p < q \<and> q < length a \<longrightarrow>
             CreatedAt (foldl (\<lambda>a i. sortInner i a) a [0 ..< m] ! q)
               \<le> CreatedAt (foldl (\<lambda>a i. sortInner i a) a [0 ..< m] ! p))"
  using assms
proof (induction m)
  case 0
  then show ?case by simp
next
  case (Suc m)
  define r where "r = foldl (\<lambda>a i. sortInner i a) a [0 ..< m]"
  have step: "foldl (\<lambda>a i. sortInner i a) a [0 ..< Suc m] = sortInner m r"
    by (simp add: r_def)
  from Suc have IH:
    "length r = length a \<and> mset r = mset a
     \<and> (\<forall>p q. p < m \<and> p < q \<and> q < length a \<longrightarrow> CreatedAt (r ! q) \<le> CreatedAt (r ! p))"
    unfolding r_def by simp
  from IH have len: "length r = length a" and ms: "mset r = mset a" by blast+
  from IH have inv: "CreatedAt (r ! q) \<le> CreatedAt (r ! p)"
    if "p < m" "p < q" "q < length a" for p q
    using that by blast
  from Suc.prems len have m: "m < length r" by simp
  note props = sortInner_props[OF m]
  have "CreatedAt (sortInner m r ! q) \<le> CreatedAt (sortInner m r ! p)"
    if "p < Suc m" "p < q" "q < length a" for p q
  proof (cases "p = m")
    case True
    then show ?thesis using that len props(4)[of q] by simp
  next
    case False
    with that have p: "p < m" by simp
    show ?thesis
    proof (cases "q < m")
      case True
      then show ?thesis using p that inv[of p q] by (simp add: props(3))
    next
      case False
      then have "sortInner m r ! q = drop m (sortInner m r) ! (q - m)"
        using that len props(1) by simp
      moreover have "q - m < length (drop m (sortInner m r))"
        using False that len props(1) by simp
      ultimately have "sortInner m r ! q \<in> set (drop m (sortInner m r))"
        by (metis nth_mem)
      then have "sortInner m r ! q \<in> set (drop m r)"
        using sortInner_drop[OF m] by (metis set_mset_mset)
      then obtain k where k: "k < length (drop m r)" "drop m r ! k = sortInner m r ! q"
        by (auto simp: in_set_conv_nth)
      then have "r ! (m + k) = sortInner m r ! q" "m + k < length a" using len by simp_all
      with inv[of p "m + k"] p show ?thesis by (simp add: props(3))
    qed
  qed
  then show ?case unfolding step using props(1,2) len ms by simp
qed

lemma sortByCreatedAt_mset: "mset (sortByCreatedAt a) = mset a"
  using sortOuter_invariant[of "length a - 1" a] by (simp add: sortByCreatedAt_def)

lemma sortByCreatedAt_sorted:
  "sorted_wrt (\<lambda>x y. CreatedAt y \<le> CreatedAt x) (sortByCreatedAt a)"
proof -
  have "length (sortByCreatedAt a) = length a"
    using sortOuter_invariant[of "length a - 1" a] by (simp add: sortByCreatedAt_def)
  moreover have "CreatedAt (sortByCreatedAt a ! q) \<le> CreatedAt (sortByCreatedAt a ! p)"
    if "p < q" "q < length a" for p q
    using that sortOuter_invariant[of "length a - 1" a] by (simp add: sortByCreatedAt_def)
  ultimately show ?thesis by (simp add: sorted_wrt_iff_nth_less)
qed

text \<open>The collecting loop keeps, in the order of the IDs, the unexpired sessions they name.\<close>

lemma collectActive_from:
  "foldl (\<lambda>active sessionID.
              case m sessionID of
                None \<Rightarrow> active
              | Some session \<Rightarrow>
                  if Before now (ExpiresAt session) then active @ [session] else active)
         acc ids = acc @ collectActive m now ids"
proof (induction ids arbitrary: acc)
  case Nil
  then show ?case by (simp add: collectActive_def)
next
  case (Cons sid ids)
  let ?F = "\<lambda>active sessionID.
              case m sessionID of
                None \<Rightarrow> active
              | Some session \<Rightarrow>
                  if Before now (ExpiresAt session) then active @ [session] else active"
  have F: "?F acc sid = acc @ ?F [] sid" by (simp split: option.splits)
  have "collectActive m now (sid # ids) = foldl ?F (?F [] sid) ids"
    by (simp only: collectActive_def foldl_Cons)
  also have "\<dots> = ?F [] sid @ collectActive m now ids" by (rule Cons.IH)
  finally have c: "collectActive m now (sid # ids) = ?F [] sid @ collectActive m now ids" .
  have "foldl ?F acc (sid # ids) = foldl ?F (?F acc sid) ids" by (simp only: foldl_Cons)
  also have "\<dots> = ?F acc sid @ collectActive m now ids" by (rule Cons.IH)
  also have "\<dots> = acc @ collectActive m now (sid # ids)" by (simp only: F c append_assoc)
  finally show ?case .
qed

lemma collectActive_Nil: "collectActive m now [] = []"
  by (simp add: collectActive_def)

lemma collectActive_Cons:
  "collectActive m now (sid # ids) =
     (case m sid of
        None \<Rightarrow> []
      | Some x \<Rightarrow> if Before now (ExpiresAt x) then [x] else []) @ collectActive m now ids"
  apply (simp only: collectActive_def foldl_Cons)
  apply (simp only: collectActive_from)
  apply (simp split: option.splits)
  done

lemma collectActive_filter:
  "collectActive m now ids =
     map (\<lambda>sid. the (m sid))
       (filter (\<lambda>sid. \<exists>x. m sid = Some x \<and> Before now (ExpiresAt x)) ids)"
  by (induction ids) (auto simp: collectActive_Nil collectActive_Cons split: option.splits)

lemma set_collectActive:
  "set (collectActive m now ids) =
     {x. \<exists>sid \<in> set ids. m sid = Some x \<and> Before now (ExpiresAt x)}"
proof (rule set_eqI, rule iffI)
  fix x
  assume "x \<in> set (collectActive m now ids)"
  then obtain sid y where "sid \<in> set ids" "m sid = Some y" "Before now (ExpiresAt y)"
    "x = the (m sid)"
    unfolding collectActive_filter by auto
  then show "x \<in> {x. \<exists>sid \<in> set ids. m sid = Some x \<and> Before now (ExpiresAt x)}" by auto
next
  fix x
  assume "x \<in> {x. \<exists>sid \<in> set ids. m sid = Some x \<and> Before now (ExpiresAt x)}"
  then obtain sid where "sid \<in> set ids" "m sid = Some x" "Before now (ExpiresAt x)" by auto
  then have "sid \<in> set (filter (\<lambda>sid. \<exists>x. m sid = Some x \<and> Before now (ExpiresAt x)) ids)"
    and "x = the (m sid)" by auto
  then show "x \<in> set (collectActive m now ids)"
    unfolding collectActive_filter set_map by (rule_tac image_eqI)
qed

lemma length_collectActive:
  "distinct ids \<Longrightarrow>
   length (collectActive m now ids) =
     card ({sid. \<exists>x. m sid = Some x \<and> Before now (ExpiresAt x)} \<inter> set ids)"
  by (simp add: collectActive_filter distinct_length_filter)

text \<open>
  Where the index agrees with the stored sessions, \<open>GetActiveByUser\<close> returns the
  unexpired stored sessions of the user and no others, one for each of their IDs,
  newest first; for a user without sessions that is the empty list.
\<close>

lemma GetActiveByUser_indexed:
  assumes "indexAgrees s"
  shows "\<exists>r. MemorySessionStore_GetActiveByUser u now s = Inr r
           \<and> set r = {x. \<exists>sid. sessions s sid = Some x \<and> UserID x = u
                                \<and> Before now (ExpiresAt x)}
           \<and> length r = card {sid. \<exists>x. sessions s sid = Some x \<and> UserID x = u
                                          \<and> Before now (ExpiresAt x)}
           \<and> sorted_wrt (\<lambda>x y. CreatedAt y \<le> CreatedAt x) r"
proof (cases "byUser s u")
  case None
  with assms have n: "UserID x \<noteq> u" if "sessions s sid = Some x" for sid x
    unfolding indexAgrees_def using that by (metis option.distinct(1))
  have e1: "{x. \<exists>sid. sessions s sid = Some x \<and> UserID x = u \<and> Before now (ExpiresAt x)} = {}"
    using n by blast
  have e2: "{sid. \<exists>x. sessions s sid = Some x \<and> UserID x = u \<and> Before now (ExpiresAt x)} = {}"
    using n by blast
  have "MemorySessionStore_GetActiveByUser u now s = Inr []"
    by (simp add: MemorySessionStore_GetActiveByUser_def None)
  then show ?thesis unfolding e1 e2 by simp
next
  case (Some ids)
  from assms Some have d: "distinct ids" unfolding indexAgrees_def by blast
  from assms have "(\<exists>ids. byUser s u = Some ids \<and> sid \<in> set ids)
               \<longleftrightarrow> (\<exists>x. sessions s sid = Some x \<and> UserID x = u)" for sid
    unfolding indexAgrees_def by blast
  then have mem: "sid \<in> set ids \<longleftrightarrow> (\<exists>x. sessions s sid = Some x \<and> UserID x = u)" for sid
    by (simp add: Some)
  define r where "r = sortByCreatedAt (collectActive (sessions s) now ids)"
  have ms: "mset r = mset (collectActive (sessions s) now ids)"
    by (simp add: r_def sortByCreatedAt_mset)
  have A: "{sid. \<exists>x. sessions s sid = Some x \<and> UserID x = u \<and> Before now (ExpiresAt x)}
           = {sid. \<exists>x. sessions s sid = Some x \<and> Before now (ExpiresAt x)} \<inter> set ids"
    using mem by auto
  have B: "{x. \<exists>sid. sessions s sid = Some x \<and> UserID x = u \<and> Before now (ExpiresAt x)}
           = {x. \<exists>sid \<in> set ids. sessions s sid = Some x \<and> Before now (ExpiresAt x)}"
    using mem by auto
  have "set r = set (collectActive (sessions s) now ids)" using ms by (rule mset_eq_setD)
  then have 1: "set r = {x. \<exists>sid. sessions s sid = Some x \<and> UserID x = u
                                \<and> Before now (ExpiresAt x)}"
    unfolding B by (simp only: set_collectActive)
  have "length r = length (collectActive (sessions s) now ids)" using ms by (rule mset_eq_length)
  then have 2: "length r = card {sid. \<exists>x. sessions s sid = Some x \<and> UserID x = u
                                          \<and> Before now (ExpiresAt x)}"
    unfolding A using d by (simp only: length_collectActive)
  have 3: "sorted_wrt (\<lambda>x y. CreatedAt y \<le> CreatedAt x) r"
    unfolding r_def by (rule sortByCreatedAt_sorted)
  have "MemorySessionStore_GetActiveByUser u now s = Inr r"
    by (simp add: MemorySessionStore_GetActiveByUser_def Some r_def)
  then show ?thesis using 1 2 3 by blast
qed

text \<open>
  The new store is in that state; \<open>Delete\<close> keeps it; \<open>Save\<close> keeps it unless it
  overwrites a session ID stored under another user.
\<close>

lemma indexAgrees_New: "indexAgrees NewMemorySessionStore"
  by (simp add: indexAgrees_def NewMemorySessionStore_def)

lemma Save_sessions:
  "sessions (snd (MemorySessionStore_Save x s)) = (sessions s)(SessionID x \<mapsto> x)"
  by (simp add: MemorySessionStore_Save_def Let_def)

lemma Save_byUser:
  "byUser (snd (MemorySessionStore_Save x s)) =
     (byUser s)(UserID x \<mapsto>
        (case byUser s (UserID x) of
           None \<Rightarrow> [SessionID x]
         | Some us \<Rightarrow> if SessionID x \<in> set us then us else us @ [SessionID x]))"
  by (auto simp: MemorySessionStore_Save_def Let_def split: option.splits)

lemma Delete_unknown:
  "sessions s sid = None \<Longrightarrow> snd (MemorySessionStore_Delete sid s) = s"
  by (simp add: MemorySessionStore_Delete_def)

lemma Delete_known:
  assumes "sessions s sid = Some y"
  shows "sessions (snd (MemorySessionStore_Delete sid s)) = (sessions s)(sid := None)"
    and "byUser (snd (MemorySessionStore_Delete sid s)) =
           (case byUser s (UserID y) of
              None \<Rightarrow> byUser s
            | Some us \<Rightarrow>
                if removeAll sid us = [] then (byUser s)(UserID y := None)
                else (byUser s)(UserID y \<mapsto> removeAll sid us))"
  using assms by (auto simp: MemorySessionStore_Delete_def Let_def split: option.splits)

lemma indexAgrees_Save:
  assumes "indexAgrees s"
    and "\<And>y. sessions s (SessionID x) = Some y \<Longrightarrow> UserID y = UserID x"
  shows "indexAgrees (snd (MemorySessionStore_Save x s))"
proof -
  from assms(1) have d: "\<And>u ids. byUser s u = Some ids \<Longrightarrow> distinct ids"
    and a: "\<And>u sid. (\<exists>ids. byUser s u = Some ids \<and> sid \<in> set ids)
               \<longleftrightarrow> (\<exists>x. sessions s sid = Some x \<and> UserID x = u)"
    unfolding indexAgrees_def by blast+
  have 1: "distinct ids" if "byUser (snd (MemorySessionStore_Save x s)) u = Some ids" for u ids
    using that d by (auto simp: Save_byUser split: if_splits option.splits)
  have 2: "(\<exists>ids. byUser (snd (MemorySessionStore_Save x s)) u = Some ids \<and> sid \<in> set ids)
               \<longleftrightarrow> (\<exists>y. sessions (snd (MemorySessionStore_Save x s)) sid = Some y \<and> UserID y = u)"
    for u sid
  proof (cases "sid = SessionID x")
    case True
    show ?thesis
    proof (cases "u = UserID x")
      case u: True
      show ?thesis using True u by (auto simp: Save_byUser Save_sessions split: option.splits)
    next
      case u: False
      have "\<not> (\<exists>ids. byUser s u = Some ids \<and> SessionID x \<in> set ids)"
        using a[of u "SessionID x"] assms(2) u by auto
      then show ?thesis using True u by (auto simp: Save_byUser Save_sessions)
    qed
  next
    case False
    show ?thesis
    proof (cases "u = UserID x")
      case u: True
      show ?thesis using False u a[of u sid]
        by (auto simp: Save_byUser Save_sessions split: option.splits)
    next
      case u: False
      show ?thesis using False u a[of u sid] by (simp add: Save_byUser Save_sessions)
    qed
  qed
  show ?thesis unfolding indexAgrees_def using 1 2 by blast
qed

lemma indexAgrees_Delete:
  assumes "indexAgrees s"
  shows "indexAgrees (snd (MemorySessionStore_Delete sid s))"
proof (cases "sessions s sid")
  case None
  then show ?thesis using assms by (simp add: Delete_unknown)
next
  case (Some y)
  from assms have d: "\<And>u ids. byUser s u = Some ids \<Longrightarrow> distinct ids"
    and a: "\<And>u sid. (\<exists>ids. byUser s u = Some ids \<and> sid \<in> set ids)
               \<longleftrightarrow> (\<exists>x. sessions s sid = Some x \<and> UserID x = u)"
    unfolding indexAgrees_def by blast+
  from a[of "UserID y" sid] Some obtain us where us: "byUser s (UserID y) = Some us" "sid \<in> set us"
    by auto
  note k = Delete_known[OF Some, unfolded us option.case]
  have 1: "distinct ids" if "byUser (snd (MemorySessionStore_Delete sid s)) u = Some ids" for u ids
    using that d[of u] d[OF us(1)] by (auto simp: k distinct_removeAll split: if_splits)
  have 2: "(\<exists>ids. byUser (snd (MemorySessionStore_Delete sid s)) u = Some ids \<and> sid' \<in> set ids)
               \<longleftrightarrow> (\<exists>x. sessions (snd (MemorySessionStore_Delete sid s)) sid' = Some x \<and> UserID x = u)"
    for u sid'
  proof (cases "sid' = sid")
    case True
    have "\<not> (\<exists>ids. byUser s u = Some ids \<and> sid \<in> set ids)" if "u \<noteq> UserID y"
      using a[of u sid] Some that by auto
    then show ?thesis using True by (auto simp: k split: if_splits)
  next
    case False
    have r: "sid' \<in> set (removeAll sid us) \<longleftrightarrow> sid' \<in> set us" using False by simp
    have e: "removeAll sid us = [] \<Longrightarrow> sid' \<notin> set us" using r by (metis empty_iff empty_set)
    show ?thesis
    proof (cases "u = UserID y")
      case u: True
      show ?thesis using False u a[of u sid'] us r e
        by (auto simp: k split: if_splits)
    next
      case u: False
      show ?thesis using False u a[of u sid'] by (auto simp: k split: if_splits)
    qed
  qed
  show ?thesis unfolding indexAgrees_def using 1 2 by blast
qed

text \<open>
  C10. Evaluation of \<open>GetActiveByUser\<close> after \<open>Save\<close> overwrote a session ID under
  another user: \<open>Save\<close> replaces the session and indexes the ID under \<open>bob\<close>, but leaves
  it in the index of \<open>alice\<close>, so the active query for \<open>alice\<close> returns the session
  \<open>s1\<close> whose \<open>UserID\<close> is \<open>bob\<close>.
\<close>

theorem GetActiveByUser_returns_other_user:
  "reusedID = \<lparr>sessions = [''s1'' \<mapsto> sampleSession ''s1'' ''bob'' 20],
               byUser = [''alice'' \<mapsto> [''s1''], ''bob'' \<mapsto> [''s1'']]\<rparr>
   \<and> MemorySessionStore_GetActiveByUser ''alice'' 30 reusedID =
       Inr [sampleSession ''s1'' ''bob'' 20]
   \<and> UserID (sampleSession ''s1'' ''bob'' 20) = ''bob''"
  by (simp add: reusedID_def MemorySessionStore_Save_def NewMemorySessionStore_def Let_def
      MemorySessionStore_GetActiveByUser_def collectActive_def sampleSession_simps Before_def
      sortByCreatedAt_def)

text \<open>
  C6. Evaluation of \<open>GetActiveByUser\<close> in a state the manager reaches: after
  \<open>RegisterSession\<close> of \<open>s1\<close> for \<open>alice\<close> and then of \<open>s1\<close> for \<open>bob\<close>, the store holds
  one session, of \<open>bob\<close>, and none of \<open>alice\<close>; the active query for \<open>alice\<close> returns
  that session of \<open>bob\<close>.
\<close>

theorem GetActiveByUser_after_reregistration:
  "mw_store aliceThenBob =
     \<lparr>sessions = [''s1'' \<mapsto> bobSession],
      byUser = [''alice'' \<mapsto> [''s1''], ''bob'' \<mapsto> [''s1'']]\<rparr>
   \<and> UserID bobSession = ''bob''
   \<and> Before 30 (ExpiresAt bobSession)
   \<and> ss_GetActiveByUser memoryStore ''alice'' 30 aliceThenBob = Inr [bobSession]"
proof -
  have a: "mw_store (snd (RegisterSession (memoryManager memoryConfig) ''alice'' ''s1'' sampleDevice placeA
          0 10 newMemWorld)) = \<lparr>sessions = [''s1'' \<mapsto> newStoreSession (memoryManager memoryConfig) ''alice'' ''s1'' sampleDevice placeA 10],
      byUser = [''alice'' \<mapsto> [''s1'']]\<rparr>"
    by (simp add: RegisterSession_memory_world newMemWorld_def NewMemorySessionStore_def
        MemorySessionStore_Save_def Let_def newStoreSession_simps)
  have b: "mw_store aliceThenBob =
     \<lparr>sessions = [''s1'' \<mapsto> bobSession],
      byUser = [''alice'' \<mapsto> [''s1''], ''bob'' \<mapsto> [''s1'']]\<rparr>"
    unfolding aliceThenBob_def
    by (simp add: RegisterSession_memory_world a MemorySessionStore_Save_def Let_def
        newStoreSession_simps bobSession_def)
  show ?thesis
    by (simp add: b memoryStore_def MemorySessionStore_GetActiveByUser_def collectActive_def
        bobSession_def newStoreSession_simps Before_def sortByCreatedAt_def)
qed

end
